theory Spec2Isabelle
  imports Complex_Main
begin

section \<open>Numbers, errors and the objects the pipeline refers to\<close>

text \<open>
  A JavaScript number is modelled by the real number it denotes; NaN, the infinities and
  the sign of zero are outside the model. \<open>Math.round\<close> rounds to the nearest integer, a
  half going up.
\<close>

definition Math_round :: "real \<Rightarrow> real" where
  "Math_round x = of_int \<lfloor>x + 1 / 2\<rfloor>"

text \<open>
  The numbers of the program are IEEE 754 doubles, and a product of two of them is the
  double nearest to the exact product, a tie going to the even significand.
  \<open>bitlength n\<close> is the number of binary digits of \<open>n\<close>, \<open>binary_exponent x\<close> the exponent
  \<open>e\<close> with \<open>2^e \<le> |x| < 2^(e+1)\<close>, and \<open>ulp x\<close> the distance between neighbouring doubles
  at \<open>x\<close>, with 52 fraction bits and the least exponent -1022 of the subnormal range.
  \<open>double_value x\<close> says that \<open>x\<close> is a finite double, and \<open>double_product h d\<close> that \<open>h\<close>
  and \<open>d\<close> are finite doubles whose product does not overflow.
\<close>

fun bitlength :: "nat \<Rightarrow> nat" where
  "bitlength n = (if n = 0 then 0 else Suc (bitlength (n div 2)))"

declare bitlength.simps [simp del]

definition binary_exponent :: "real \<Rightarrow> int" where
  "binary_exponent x =
     (if 1 \<le> \<bar>x\<bar> then int (bitlength (nat \<lfloor>\<bar>x\<bar>\<rfloor>)) - 1
      else - int (bitlength (nat (\<lceil>1 / \<bar>x\<bar>\<rceil> - 1))))"

definition ulp :: "real \<Rightarrow> real" where
  "ulp x =
     (let e = max (binary_exponent x) (- 1022) - 52
      in if 0 \<le> e then 2 ^ nat e else 1 / 2 ^ nat (- e))"

definition round_half_even :: "real \<Rightarrow> int" where
  "round_half_even q =
     (let f = \<lfloor>q\<rfloor>; r = q - of_int f
      in if r < 1 / 2 then f else if 1 / 2 < r then f + 1 else if even f then f else f + 1)"

definition to_double :: "real \<Rightarrow> real" where
  "to_double x = (if x = 0 then 0 else of_int (round_half_even (x / ulp x)) * ulp x)"

definition double_mul :: "real \<Rightarrow> real \<Rightarrow> real" where
  "double_mul x y = to_double (x * y)"

definition double_value :: "real \<Rightarrow> bool" where
  "double_value x \<longleftrightarrow> to_double x = x \<and> \<bar>x\<bar> < 2 ^ 1024"

definition double_product :: "real \<Rightarrow> real \<Rightarrow> bool" where
  "double_product h d \<longleftrightarrow>
     double_value h \<and> double_value d \<and> \<bar>h * d\<bar> < 2 ^ 1024 - 2 ^ 970"

text \<open>A thrown value: \<open>new Error(msg)\<close>, or the TypeError of a property access on undefined.\<close>

datatype error = Error string | TypeError string

text \<open>
  Modelled from the spec: the class Resolution (src/utils/Resolution.ts) is missing. It has
  a base width and height and a scale factor of default 1.0; its width and height are the
  derived effective size round(base * scale), never stored. A call of \<open>setBaseSize\<close> is one
  logical mutation and delivers one change notification; the notification is written out
  where the owner of the Resolution registered a listener.
\<close>

record Resolution =
  baseWidth :: real
  baseHeight :: real
  scale :: real

definition Resolution_new :: "real \<Rightarrow> real \<Rightarrow> Resolution" where
  "Resolution_new w h = \<lparr>baseWidth = w, baseHeight = h, scale = 1\<rparr>"

definition Resolution_width :: "Resolution \<Rightarrow> real" where
  "Resolution_width res = Math_round (baseWidth res * scale res)"

definition Resolution_height :: "Resolution \<Rightarrow> real" where
  "Resolution_height res = Math_round (baseHeight res * scale res)"

definition setBaseSize :: "real \<Rightarrow> real \<Rightarrow> Resolution \<Rightarrow> Resolution" where
  "setBaseSize w h res = res\<lparr>baseWidth := w, baseHeight := h\<rparr>"

text \<open>
  Modelled from the spec: the class Pass (src/core/Pass.ts) is missing. A pass has a name,
  an enabled flag, a Resolution of its own, and nullable handles to a renderer and a timer.
  Objects are referred to by identity, so the handles are identifiers.
\<close>

type_synonym pass_id = nat
type_synonym renderer_id = nat
type_synonym timer_id = nat

record Pass =
  name :: string
  enabled :: bool
  renderer :: "renderer_id option"
  timer :: "timer_id option"
  resolution :: Resolution

text \<open>
  Modelled from the spec: the renderer is the external WebGLRenderer. It holds a logical
  size and a device pixel ratio; \<open>getSize\<close> reads the logical size, \<open>setSize\<close> assigns it,
  and the drawing-buffer size is the device-scaled size round(logical * ratio).
\<close>

record WebGLRenderer =
  r_width :: real
  r_height :: real
  pixelRatio :: real

definition getSize :: "WebGLRenderer \<Rightarrow> real \<times> real" where
  "getSize r = (r_width r, r_height r)"

definition getDrawingBufferSize :: "WebGLRenderer \<Rightarrow> real \<times> real" where
  "getDrawingBufferSize r =
     (Math_round (r_width r * pixelRatio r), Math_round (r_height r * pixelRatio r))"

definition renderer_setSize :: "real \<Rightarrow> real \<Rightarrow> WebGLRenderer \<Rightarrow> WebGLRenderer" where
  "renderer_setSize w h r = r\<lparr>r_width := w, r_height := h\<rparr>"

text \<open>
  Calls that leave the pipeline are recorded in a trace, in the order they are made: the
  timer update, the render and dispose calls on passes, the resize of the renderer with
  its arguments, the calls on the shared IOManager, and the debug log.
\<close>

datatype event =
    TimerUpdate "real option"
  | TimerDispose
  | PassRender pass_id
  | PassDispose pass_id
  | RendererSetSize renderer_id real real bool
  | IOManagerAddPipeline
  | IOManagerRemovePipeline
  | IOManagerUpdate
  | ShaderChunkExtensionsRegister
  | LogDebug string

section \<open>RenderPipeline\<close>

text \<open>
  The state is the fields of one RenderPipeline together with the store of the objects it
  refers to: the passes and the renderers by identifier, and the trace.
\<close>

record world =
  p_renderer :: "renderer_id option"
  p_timer :: timer_id
  p_passes :: "pass_id list"
  p_resolution :: Resolution
  updateStyle :: bool
  autoRenderToScreen :: bool
  heap :: "pass_id \<Rightarrow> Pass"
  renderers :: "renderer_id \<Rightarrow> WebGLRenderer"
  trace :: "event list"

definition emit :: "event \<Rightarrow> world \<Rightarrow> world" where
  "emit e w = w\<lparr>trace := trace w @ [e]\<rparr>"

definition update_pass :: "pass_id \<Rightarrow> (Pass \<Rightarrow> Pass) \<Rightarrow> world \<Rightarrow> world" where
  "update_pass x f w = w\<lparr>heap := (heap w)(x := f (heap w x))\<rparr>"

text \<open>\<open>for(const pass of this.passes) { body }\<close>\<close>

primrec for_passes :: "(pass_id \<Rightarrow> world \<Rightarrow> world) \<Rightarrow> pass_id list \<Rightarrow> world \<Rightarrow> world" where
  "for_passes body [] w = w"
| "for_passes body (x # xs) w = for_passes body xs (body x w)"

text \<open>\<open>Array.prototype.indexOf\<close> with identity comparison, and \<open>splice(index, 1)\<close>.\<close>

primrec indexOf :: "'a list \<Rightarrow> 'a \<Rightarrow> int" where
  "indexOf [] x = -1"
| "indexOf (y # ys) x =
     (if y = x then 0 else (let i = indexOf ys x in if i = -1 then -1 else i + 1))"

definition splice1 :: "int \<Rightarrow> 'a list \<Rightarrow> 'a list \<times> 'a list" where
  "splice1 i xs = (take 1 (drop (nat i) xs), take (nat i) xs @ drop (nat i + 1) xs)"

definition RenderPipeline_new ::
  "renderer_id option \<Rightarrow> timer_id \<Rightarrow> Resolution \<Rightarrow> (pass_id \<Rightarrow> Pass) \<Rightarrow>
   (renderer_id \<Rightarrow> WebGLRenderer) \<Rightarrow> world" where
  "RenderPipeline_new r t res h rs =
     \<lparr>p_renderer = r, p_timer = t, p_passes = [], p_resolution = res,
      updateStyle = True, autoRenderToScreen = True,
      heap = h, renderers = rs,
      trace = [ShaderChunkExtensionsRegister, IOManagerAddPipeline]\<rparr>"

definition onResolutionChange :: "world \<Rightarrow> world" where
  "onResolutionChange w =
     (case p_renderer w of
        None \<Rightarrow> emit (LogDebug ''Unable to update the render size because the renderer is null'') w
      | Some rid \<Rightarrow>
          (let width = Resolution_width (p_resolution w);
               height = Resolution_height (p_resolution w);
               logicalSize = getSize (renderers w rid);
               w1 = (if fst logicalSize \<noteq> width \<or> snd logicalSize \<noteq> height
                     then emit (RendererSetSize rid width height (updateStyle w))
                            (w\<lparr>renderers := (renderers w)
                                 (rid := renderer_setSize width height (renderers w rid))\<rparr>)
                     else w);
               effectiveSize = getDrawingBufferSize (renderers w1 rid)
           in for_passes
                (\<lambda>pass. update_pass pass (\<lambda>p. p\<lparr>resolution :=
                    setBaseSize (fst effectiveSize) (snd effectiveSize) (resolution p)\<rparr>))
                (p_passes w1) w1))"

definition set_renderer :: "renderer_id option \<Rightarrow> world \<Rightarrow> world" where
  "set_renderer v w =
     (let w1 = w\<lparr>p_renderer := v\<rparr>;
          w2 = for_passes (\<lambda>pass. update_pass pass (\<lambda>p. p\<lparr>renderer := v\<rparr>)) (p_passes w1) w1
      in if v \<noteq> None then emit IOManagerUpdate (onResolutionChange w2) else w2)"

definition registerPass :: "pass_id \<Rightarrow> world \<Rightarrow> world" where
  "registerPass pass w =
     (let w1 = (case p_renderer w of
                  None \<Rightarrow> w
                | Some rid \<Rightarrow>
                    (let v = getDrawingBufferSize (renderers w rid)
                     in update_pass pass
                          (\<lambda>p. p\<lparr>resolution := setBaseSize (fst v) (snd v) (resolution p)\<rparr>) w));
          w2 = update_pass pass (\<lambda>p. p\<lparr>renderer := p_renderer w1\<rparr>) w1
      in update_pass pass (\<lambda>p. p\<lparr>timer := Some (p_timer w2)\<rparr>) w2)"

definition unregisterPass :: "pass_id \<Rightarrow> world \<Rightarrow> world" where
  "unregisterPass pass w =
     update_pass pass (\<lambda>p. p\<lparr>timer := None\<rparr>) (update_pass pass (\<lambda>p. p\<lparr>renderer := None\<rparr>) w)"

text \<open>
  A call that can throw returns the thrown value, if any, and the state the call leaves
  behind.
\<close>

definition addPass :: "pass_id \<Rightarrow> world \<Rightarrow> error option \<times> world" where
  "addPass pass w =
     (if indexOf (p_passes w) pass \<noteq> -1
      then (Some (Error (''Unable to add pass '' @ [CHR 0x22] @ name (heap w pass) @ [CHR 0x22]
                         @ '' because it was already added'')), w)
      else (let w1 = registerPass pass w;
                w2 = w1\<lparr>p_passes := p_passes w1 @ [pass]\<rparr>
            in (None, emit IOManagerUpdate w2)))"

definition removePass :: "pass_id \<Rightarrow> world \<Rightarrow> world" where
  "removePass pass w =
     (let index = indexOf (p_passes w) pass;
          exists = (index \<noteq> -1)
      in if exists
         then (let (deleted, rest) = splice1 index (p_passes w);
                   w1 = w\<lparr>p_passes := rest\<rparr>
               in if length deleted > 0
                  then emit IOManagerUpdate (unregisterPass pass w1)
                  else w1)
         else w)"

definition removeAllPasses :: "world \<Rightarrow> world" where
  "removeAllPasses w =
     (let w1 = for_passes unregisterPass (p_passes w) w
      in emit IOManagerUpdate (w1\<lparr>p_passes := []\<rparr>))"

definition render :: "real option \<Rightarrow> world \<Rightarrow> world" where
  "render timestamp w =
     (if p_renderer w = None then w
      else for_passes
             (\<lambda>pass w'. if enabled (heap w' pass) then emit (PassRender pass) w' else w')
             (p_passes w) (emit (TimerUpdate timestamp) w))"

text \<open>
  \<open>setSize(width, height, updateStyle = true)\<close>: a caller that leaves the third argument
  out passes \<open>True\<close>. The assignment of the base size notifies the listener that the
  constructor registered, which is \<open>onResolutionChange\<close>.
\<close>

definition setSize :: "real \<Rightarrow> real \<Rightarrow> bool \<Rightarrow> world \<Rightarrow> world" where
  "setSize width height us w =
     (let w1 = w\<lparr>updateStyle := us\<rparr>;
          w2 = w1\<lparr>p_resolution := setBaseSize width height (p_resolution w1)\<rparr>
      in onResolutionChange w2)"

definition dispose :: "world \<Rightarrow> world" where
  "dispose w =
     (let w1 = emit IOManagerRemovePipeline w;
          w2 = for_passes (\<lambda>pass. emit (PassDispose pass)) (p_passes w1) w1
      in emit TimerDispose (removeAllPasses w2))"

text \<open>
  The calls of the pipeline's interface. A caller that catches the Error of \<open>addPass\<close>
  goes on with the state the failed call left behind.
\<close>

datatype call =
    AddPass pass_id
  | RemovePass pass_id
  | RemoveAllPasses
  | Render "real option"
  | SetSize real real bool
  | SetRenderer "renderer_id option"
  | Dispose

fun exec :: "call \<Rightarrow> world \<Rightarrow> world" where
  "exec (AddPass x) w = snd (addPass x w)"
| "exec (RemovePass x) w = removePass x w"
| "exec RemoveAllPasses w = removeAllPasses w"
| "exec (Render ts) w = render ts w"
| "exec (SetSize width height us) w = setSize width height us w"
| "exec (SetRenderer v) w = set_renderer v w"
| "exec Dispose w = dispose w"

primrec run :: "call list \<Rightarrow> world \<Rightarrow> world" where
  "run [] w = w"
| "run (c # cs) w = run cs (exec c w)"

text \<open>
  The states a pipeline reaches through its interface. Passes are constructed
  independently of any pipeline, with both handles null.
\<close>

inductive reachable :: "world \<Rightarrow> bool" where
  r_new: "\<forall>x. renderer (h x) = None \<and> timer (h x) = None \<Longrightarrow>
          reachable (RenderPipeline_new r t (Resolution_new bw bh) h rs)"
| r_exec: "reachable w \<Longrightarrow> reachable (exec c w)"

text \<open>
  The \<open>updateStyle\<close> argument of the last \<open>setSize\<close> among the calls, or the given value if
  there is none; and the \<open>updateStyle\<close> arguments with which the renderer was resized in a
  list of events.
\<close>

primrec last_updateStyle :: "call list \<Rightarrow> bool \<Rightarrow> bool" where
  "last_updateStyle [] b = b"
| "last_updateStyle (c # cs) b =
     last_updateStyle cs (case c of SetSize width height us \<Rightarrow> us | _ \<Rightarrow> b)"

primrec style_flags :: "event list \<Rightarrow> bool list" where
  "style_flags [] = []"
| "style_flags (e # es) =
     (case e of RendererSetSize rid width height us \<Rightarrow> us # style_flags es | _ \<Rightarrow> style_flags es)"

text \<open>The events a call appended to the trace.\<close>

definition new_events :: "world \<Rightarrow> world \<Rightarrow> event list" where
  "new_events w w' = drop (length (trace w)) (trace w')"

text \<open>The base size of a pass's Resolution, as a pair.\<close>

definition baseSize :: "Pass \<Rightarrow> real \<times> real" where
  "baseSize p = (baseWidth (resolution p), baseHeight (resolution p))"

section \<open>EffectMaterial\<close>

text \<open>
  \<open>String.prototype.replace\<close> with a string pattern: the first occurrence of the pattern
  is replaced, and in the replacement text \<open>$$\<close> stands for a dollar sign, \<open>$&\<close> for the
  matched text, \<open>$`\<close> for the text before the match and \<open>$'\<close> for the text after it.
\<close>

fun split_first :: "string \<Rightarrow> string \<Rightarrow> (string \<times> string) option" where
  "split_first pat [] = (if pat = [] then Some ([], []) else None)"
| "split_first pat (c # cs) =
     (if take (length pat) (c # cs) = pat then Some ([], drop (length pat) (c # cs))
      else (case split_first pat cs of
              None \<Rightarrow> None
            | Some (a, b) \<Rightarrow> Some (c # a, b)))"





datatype define_value = DString string | DNumber real | DBoolean bool

datatype uniform_value = Null | Number real | Object nat

text \<open>
  The material's \<open>defines\<close> (here \<open>m_defines\<close>) and \<open>uniforms\<close> are objects used as
  dictionaries. The flag
  \<open>needsUpdate\<close> belongs to the external Material class; the model keeps the flag and, as
  \<open>version\<close>, how many times it was assigned \<open>true\<close>.
\<close>

record EffectMaterial =
  m_defines :: "string \<rightharpoonup> define_value"
  uniforms :: "string \<rightharpoonup> uniform_value"
  fragmentShader :: string
  vertexShader :: string
  needsUpdate :: bool
  version :: nat

definition set_needsUpdate :: "EffectMaterial \<Rightarrow> EffectMaterial" where
  "set_needsUpdate m = m\<lparr>needsUpdate := True, version := version m + 1\<rparr>"

definition colorSpaceConversion :: "EffectMaterial \<Rightarrow> bool" where
  "colorSpaceConversion m = (m_defines m ''COLOR_SPACE_CONVERSION'' \<noteq> None)"

definition set_colorSpaceConversion :: "bool \<Rightarrow> EffectMaterial \<Rightarrow> EffectMaterial" where
  "set_colorSpaceConversion v m =
     (if colorSpaceConversion m \<noteq> v
      then set_needsUpdate
             (if v then m\<lparr>m_defines := (m_defines m)(''COLOR_SPACE_CONVERSION'' \<mapsto> DString ''1'')\<rparr>
              else m\<lparr>m_defines := (m_defines m)(''COLOR_SPACE_CONVERSION'' := None)\<rparr>)
      else m)"




text \<open>
  \<open>for(const entry of map.entries()) { obj[entry[0]] = entry[1]; }\<close>, the entries of the
  Map in insertion order.
\<close>

primrec assign_entries :: "(string \<times> 'v) list \<Rightarrow> (string \<rightharpoonup> 'v) \<Rightarrow> (string \<rightharpoonup> 'v)" where
  "assign_entries [] obj = obj"
| "assign_entries (entry # es) obj = assign_entries es (obj(fst entry \<mapsto> snd entry))"

definition setDefines :: "(string \<times> define_value) list \<Rightarrow> EffectMaterial \<Rightarrow> EffectMaterial" where
  "setDefines ds m = set_needsUpdate (m\<lparr>m_defines := assign_entries ds (m_defines m)\<rparr>)"

definition setUniforms :: "(string \<times> uniform_value) list \<Rightarrow> EffectMaterial \<Rightarrow> EffectMaterial" where
  "setUniforms us m = m\<lparr>uniforms := assign_entries us (uniforms m)\<rparr>"

section \<open>ScanlineEffect\<close>

text \<open>
  Modelled from the spec: the base class Effect (src/effects/Effect.ts) is missing. An effect
  carries a map of uniforms and a map of macros, both empty when the base constructor
  returns, a Resolution, and a dirty signal (\<open>setChanged\<close>), counted in \<open>changed\<close>. The host
  invokes the hook \<open>onResolutionChange\<close> with the effect's Resolution whenever its size
  changes. The field \<open>density\<close> is the private field \<open>d\<close>, read by the getter \<open>density\<close>,
  and \<open>e_fragmentShader\<close> is the effect's fragment shader source.
\<close>

record ScanlineEffect =
  density :: real
  e_fragmentShader :: "string option"
  input_uniforms :: "string \<rightharpoonup> real"
  input_defines :: "string \<rightharpoonup> string"
  e_resolution :: Resolution
  changed :: nat

definition Effect_new :: "Resolution \<Rightarrow> ScanlineEffect" where
  "Effect_new res =
     \<lparr>density = 0, e_fragmentShader = None, input_uniforms = Map.empty,
      input_defines = Map.empty, e_resolution = res, changed = 0\<rparr>"

definition setChanged :: "ScanlineEffect \<Rightarrow> ScanlineEffect" where
  "setChanged e = e\<lparr>changed := changed e + 1\<rparr>"

text \<open>
  Modelled from the spec: the base class's setter of \<open>fragmentShader\<close> is missing. The
  fragment shader is part of the effect's shader contribution, so assigning it stores the
  source and trips the dirty signal.
\<close>

definition set_fragmentShader :: "string \<Rightarrow> ScanlineEffect \<Rightarrow> ScanlineEffect" where
  "set_fragmentShader s e = setChanged (e\<lparr>e_fragmentShader := Some s\<rparr>)"

text \<open>
  \<open>this.input.uniforms.get(k)!.value = v\<close>: the assignment throws a TypeError when the map
  has no uniform of that name.
\<close>

definition set_uniform_value :: "string \<Rightarrow> real \<Rightarrow> ScanlineEffect \<Rightarrow> error + ScanlineEffect" where
  "set_uniform_value k v e =
     (case input_uniforms e k of
        None \<Rightarrow> Inl (TypeError ''Cannot set properties of undefined'')
      | Some old \<Rightarrow> Inr (e\<lparr>input_uniforms := (input_uniforms e)(k \<mapsto> v)\<rparr>))"

definition get_scrollSpeed :: "ScanlineEffect \<Rightarrow> error + real" where
  "get_scrollSpeed e =
     (case input_uniforms e ''scrollSpeed'' of
        None \<Rightarrow> Inl (TypeError ''Cannot read properties of undefined'')
      | Some v \<Rightarrow> Inr v)"

definition set_scrollSpeed :: "real \<Rightarrow> ScanlineEffect \<Rightarrow> error + ScanlineEffect" where
  "set_scrollSpeed v e =
     (case set_uniform_value ''scrollSpeed'' v e of
        Inl err \<Rightarrow> Inl err
      | Inr e1 \<Rightarrow>
          Inr (if v = 0
               then (if input_defines e1 ''SCROLL'' \<noteq> None
                     then setChanged (e1\<lparr>input_defines := (input_defines e1)(''SCROLL'' := None)\<rparr>)
                     else e1)
               else if input_defines e1 ''SCROLL'' = None
               then setChanged (e1\<lparr>input_defines := (input_defines e1)(''SCROLL'' \<mapsto> ''1'')\<rparr>)
               else e1))"

text \<open>\<open>Math.round(height * this.density)\<close>, the product being a product of doubles.\<close>

definition updateCount :: "real \<Rightarrow> ScanlineEffect \<Rightarrow> error + ScanlineEffect" where
  "updateCount height e =
     set_uniform_value ''count'' (Math_round (double_mul height (density e))) e"

definition set_density :: "real \<Rightarrow> ScanlineEffect \<Rightarrow> error + ScanlineEffect" where
  "set_density v e = updateCount (Resolution_height (e_resolution e)) (e\<lparr>density := v\<rparr>)"

definition effect_onResolutionChange :: "Resolution \<Rightarrow> ScanlineEffect \<Rightarrow> error + ScanlineEffect" where
  "effect_onResolutionChange res e = updateCount (Resolution_height res) e"

definition effect_setSize :: "real \<Rightarrow> real \<Rightarrow> ScanlineEffect \<Rightarrow> error + ScanlineEffect" where
  "effect_setSize width height e = updateCount height e"

text \<open>
  The constructor; an option left out (\<open>None\<close>) takes its default. The first argument is
  the source imported from shaders/scanline.frag, which is not part of the sources at
  hand, and the Resolution is the one the base constructor creates.
\<close>

definition ScanlineEffect_new ::
  "string \<Rightarrow> real option \<Rightarrow> real option \<Rightarrow> Resolution \<Rightarrow> error + ScanlineEffect" where
  "ScanlineEffect_new fragmentShader_src density_opt scrollSpeed_opt res =
     (let dens = (case density_opt of None \<Rightarrow> 1.25 | Some x \<Rightarrow> x);
          speed = (case scrollSpeed_opt of None \<Rightarrow> 0.0 | Some x \<Rightarrow> x);
          e0 = Effect_new res;
          e1 = set_fragmentShader fragmentShader_src e0;
          e2 = e1\<lparr>input_uniforms := (input_uniforms e1)(''count'' \<mapsto> 0.0)\<rparr>;
          e3 = e2\<lparr>input_uniforms := (input_uniforms e2)(''scrollSpeed'' \<mapsto> 0.0)\<rparr>;
          e4 = e3\<lparr>density := dens\<rparr>
      in set_scrollSpeed speed e4)"

text \<open>
  Modelled from the spec: the host changes the base size of the effect's Resolution and
  the change reaches the hook, with that Resolution.
\<close>

definition effect_resize :: "real \<Rightarrow> real \<Rightarrow> ScanlineEffect \<Rightarrow> error + ScanlineEffect" where
  "effect_resize w h e =
     (let res = setBaseSize w h (e_resolution e)
      in effect_onResolutionChange res (e\<lparr>e_resolution := res\<rparr>))"

text \<open>The value of the uniform \<open>count\<close>, if it is declared.\<close>

definition count_uniform :: "ScanlineEffect \<Rightarrow> real option" where
  "count_uniform e = input_uniforms e ''count''"



















section \<open>The invariant of the pipeline and concrete states\<close>

text \<open>
  What every reachable state satisfies: no pass is listed twice, the scale of the
  pipeline's Resolution is the default, and the handles of a pass are those of the
  pipeline while the pass is listed and null otherwise.
\<close>

definition pipeline_inv :: "world \<Rightarrow> bool" where
  "pipeline_inv w \<longleftrightarrow>
     distinct (p_passes w) \<and> scale (p_resolution w) = 1 \<and>
     (\<forall>x. timer (heap w x) = (if x \<in> set (p_passes w) then Some (p_timer w) else None) \<and>
          renderer (heap w x) = (if x \<in> set (p_passes w) then p_renderer w else None))"

definition example_pass :: "pass_id \<Rightarrow> Pass" where
  "example_pass x =
     \<lparr>name = ''pass'', enabled = (x \<noteq> 1), renderer = None, timer = None,
      resolution = Resolution_new 0 0\<rparr>"

definition example_renderer :: "renderer_id \<Rightarrow> WebGLRenderer" where
  "example_renderer rid = \<lparr>r_width = 300, r_height = 150, pixelRatio = 2\<rparr>"

definition world_new :: world where
  "world_new = RenderPipeline_new (Some 0) 7 (Resolution_new 0 0) example_pass example_renderer"

definition world_3 :: world where
  "world_3 = snd (addPass 2 (snd (addPass 1 (snd (addPass 0 world_new)))))"

definition world_null :: world where
  "world_null = RenderPipeline_new None 7 (Resolution_new 0 0) example_pass example_renderer"

definition world_null_1 :: world where
  "world_null_1 = snd (addPass 0 world_null)"

definition example_material :: EffectMaterial where
  "example_material =
     \<lparr>m_defines = Map.empty, uniforms = [''gBuffer'' \<mapsto> Null, ''time'' \<mapsto> Number 0],
      fragmentShader = [], vertexShader = [], needsUpdate = False, version = 0\<rparr>"




definition example_effect :: ScanlineEffect where
  "example_effect =
     \<lparr>density = 1.25, e_fragmentShader = Some ''void mainImage() {}'',
      input_uniforms = [''count'' \<mapsto> 750, ''scrollSpeed'' \<mapsto> 0],
      input_defines = Map.empty, e_resolution = Resolution_new 800 600, changed = 1\<rparr>"

definition example_effect_scrolling :: ScanlineEffect where
  "example_effect_scrolling =
     \<lparr>density = 1.25, e_fragmentShader = Some ''void mainImage() {}'',
      input_uniforms = [''count'' \<mapsto> 750, ''scrollSpeed'' \<mapsto> 0.006],
      input_defines = [''SCROLL'' \<mapsto> ''1''], e_resolution = Resolution_new 800 600,
      changed = 2\<rparr>"

text \<open>
  The double nearest to 0.7, which is what the literal \<open>0.7\<close> denotes in the program, and
  an effect of that density.
\<close>

definition double_0_7 :: real where
  "double_0_7 = 6305039478318694 / 2 ^ 53"

definition example_effect_0_7 :: ScanlineEffect where
  "example_effect_0_7 = example_effect\<lparr>density := double_0_7\<rparr>"




section \<open>Properties of the loops and of the list operations\<close>

lemma indexOf_range: "indexOf xs x = -1 \<or> 0 \<le> indexOf xs x"
  by (induction xs) (auto simp: Let_def)

lemma indexOf_absent: "indexOf xs x = -1 \<longleftrightarrow> x \<notin> set xs"
proof (induction xs)
  case Nil
  show ?case by simp
next
  case (Cons y ys)
  have "indexOf ys x = -1 \<or> 0 \<le> indexOf ys x"
    by (rule indexOf_range)
  with Cons show ?case by (auto simp: Let_def)
qed

lemma for_passes_update:
  assumes "\<And>p. f (f p) = f p"
  shows "for_passes (\<lambda>x. update_pass x f) xs w =
         w\<lparr>heap := (\<lambda>y. if y \<in> set xs then f (heap w y) else heap w y)\<rparr>"
proof (induction xs arbitrary: w)
  case Nil
  show ?case by simp
next
  case (Cons x xs)
  have "for_passes (\<lambda>x. update_pass x f) (x # xs) w =
        (update_pass x f w)\<lparr>heap := (\<lambda>y. if y \<in> set xs then f (heap (update_pass x f w) y)
                                          else heap (update_pass x f w) y)\<rparr>"
    by (simp add: Cons)
  also have "\<dots> = w\<lparr>heap := (\<lambda>y. if y \<in> set (x # xs) then f (heap w y) else heap w y)\<rparr>"
    by (auto simp: update_pass_def fun_eq_iff assms)
  finally show ?case .
qed

lemma unregisterPass_eq:
  "unregisterPass x w = update_pass x (\<lambda>p. p\<lparr>renderer := None, timer := None\<rparr>) w"
  by (simp add: unregisterPass_def update_pass_def)

lemma for_passes_render:
  "for_passes (\<lambda>pass w'. if enabled (heap w' pass) then emit (PassRender pass) w' else w') xs w =
   w\<lparr>trace := trace w @ map PassRender (filter (\<lambda>x. enabled (heap w x)) xs)\<rparr>"
proof (induction xs arbitrary: w)
  case Nil
  show ?case by simp
next
  case (Cons x xs)
  show ?case by (simp add: Cons emit_def)
qed

lemma for_passes_emit:
  "for_passes (\<lambda>pass. emit (g pass)) xs w = w\<lparr>trace := trace w @ map g xs\<rparr>"
proof (induction xs arbitrary: w)
  case Nil
  show ?case by simp
next
  case (Cons x xs)
  have "for_passes (\<lambda>pass. emit (g pass)) (x # xs) w =
        (emit (g x) w)\<lparr>trace := trace (emit (g x) w) @ map g xs\<rparr>"
    by (simp add: Cons)
  also have "\<dots> = w\<lparr>trace := trace w @ map g (x # xs)\<rparr>"
    by (simp add: emit_def)
  finally show ?case .
qed

lemma splice1_indexOf:
  "x \<in> set xs \<Longrightarrow> splice1 (indexOf xs x) xs = ([x], remove1 x xs)"
proof (induction xs)
  case Nil
  then show ?case by simp
next
  case (Cons y ys)
  show ?case
  proof (cases "y = x")
    case True
    then show ?thesis by (simp add: splice1_def)
  next
    case False
    with Cons.prems have mem: "x \<in> set ys" by simp
    have nn: "0 \<le> indexOf ys x" using indexOf_range[of ys x] indexOf_absent[of ys x] mem by auto
    from Cons.IH[OF mem] have "take 1 (drop (nat (indexOf ys x)) ys) = [x]"
      and "take (nat (indexOf ys x)) ys @ drop (nat (indexOf ys x) + 1) ys = remove1 x ys"
      by (simp_all add: splice1_def)
    with False nn show ?thesis
      using indexOf_absent[of ys x] mem
      by (simp add: splice1_def Let_def nat_add_distrib)
  qed
qed

lemma onResolutionChange_None:
  "p_renderer w = None \<Longrightarrow>
   onResolutionChange w =
     w\<lparr>trace := trace w @ [LogDebug ''Unable to update the render size because the renderer is null'']\<rparr>"
  by (simp add: onResolutionChange_def emit_def)

lemma setBaseSize_idem: "setBaseSize a b (setBaseSize a b res) = setBaseSize a b res"
  by (simp add: setBaseSize_def)

lemma for_passes_setBaseSize:
  "for_passes (\<lambda>pass. update_pass pass (\<lambda>p. p\<lparr>resolution := setBaseSize a b (resolution p)\<rparr>)) xs w =
   w\<lparr>heap := (\<lambda>y. if y \<in> set xs
                  then (heap w y)\<lparr>resolution := setBaseSize a b (resolution (heap w y))\<rparr>
                  else heap w y)\<rparr>"
  by (rule for_passes_update) (simp add: setBaseSize_def)

lemma onResolutionChange_Some:
  assumes "p_renderer w = Some rid"
  shows "onResolutionChange w =
     w\<lparr>renderers := (renderers w)(rid := renderer_setSize (Resolution_width (p_resolution w))
                                       (Resolution_height (p_resolution w)) (renderers w rid)),
       trace := trace w @
         (if r_width (renderers w rid) \<noteq> Resolution_width (p_resolution w) \<or>
             r_height (renderers w rid) \<noteq> Resolution_height (p_resolution w)
          then [RendererSetSize rid (Resolution_width (p_resolution w))
                  (Resolution_height (p_resolution w)) (updateStyle w)]
          else []),
       heap := (\<lambda>y. if y \<in> set (p_passes w)
                    then (heap w y)\<lparr>resolution := setBaseSize
                           (Math_round (Resolution_width (p_resolution w) * pixelRatio (renderers w rid)))
                           (Math_round (Resolution_height (p_resolution w) * pixelRatio (renderers w rid)))
                           (resolution (heap w y))\<rparr>
                    else heap w y)\<rparr>"
proof (cases "r_width (renderers w rid) \<noteq> Resolution_width (p_resolution w) \<or>
             r_height (renderers w rid) \<noteq> Resolution_height (p_resolution w)")
  case True
  with assms show ?thesis
    by (simp add: onResolutionChange_def Let_def for_passes_setBaseSize getSize_def
        getDrawingBufferSize_def renderer_setSize_def emit_def cong del: if_weak_cong)
next
  case False
  then have same: "renderer_setSize (Resolution_width (p_resolution w))
                     (Resolution_height (p_resolution w)) (renderers w rid) = renderers w rid"
    by (simp add: renderer_setSize_def)
  from False assms show ?thesis
    unfolding same
    by (simp add: onResolutionChange_def Let_def for_passes_setBaseSize getSize_def
        getDrawingBufferSize_def cong del: if_weak_cong)
qed

lemma removePass_eq:
  "removePass x w =
     (if x \<in> set (p_passes w)
      then emit IOManagerUpdate (unregisterPass x (w\<lparr>p_passes := remove1 x (p_passes w)\<rparr>))
      else w)"
  by (simp add: removePass_def Let_def indexOf_absent splice1_indexOf)

lemma removeAllPasses_eq:
  "removeAllPasses w =
     w\<lparr>heap := (\<lambda>y. if y \<in> set (p_passes w) then (heap w y)\<lparr>renderer := None, timer := None\<rparr>
                    else heap w y),
       p_passes := [], trace := trace w @ [IOManagerUpdate]\<rparr>"
proof -
  have eq: "unregisterPass = (\<lambda>x. update_pass x (\<lambda>p. p\<lparr>renderer := None, timer := None\<rparr>))"
    by (simp add: fun_eq_iff unregisterPass_eq)
  show ?thesis
    by (simp add: removeAllPasses_def Let_def eq for_passes_update emit_def)
qed

lemma registerPass_eq:
  "registerPass x w =
     w\<lparr>heap := (heap w)(x := (heap w x)
         \<lparr>resolution := (case p_renderer w of
              None \<Rightarrow> resolution (heap w x)
            | Some rid \<Rightarrow> setBaseSize (fst (getDrawingBufferSize (renderers w rid)))
                           (snd (getDrawingBufferSize (renderers w rid))) (resolution (heap w x))),
           renderer := p_renderer w, timer := Some (p_timer w)\<rparr>)\<rparr>"
  by (simp add: registerPass_def Let_def update_pass_def split: option.splits)

lemma set_renderer_eq:
  "set_renderer v w =
     (if v \<noteq> None
      then emit IOManagerUpdate (onResolutionChange
             (w\<lparr>p_renderer := v,
                heap := (\<lambda>y. if y \<in> set (p_passes w) then (heap w y)\<lparr>renderer := v\<rparr> else heap w y)\<rparr>))
      else w\<lparr>p_renderer := v,
             heap := (\<lambda>y. if y \<in> set (p_passes w) then (heap w y)\<lparr>renderer := v\<rparr> else heap w y)\<rparr>)"
  by (simp add: set_renderer_def Let_def for_passes_update cong del: if_weak_cong)

lemma dispose_eq:
  "dispose w =
     emit TimerDispose (removeAllPasses
       (w\<lparr>trace := trace w @ IOManagerRemovePipeline # map PassDispose (p_passes w)\<rparr>))"
  by (simp add: dispose_def Let_def for_passes_emit emit_def)

lemma render_eq:
  "render ts w = (if p_renderer w = None then w else
     w\<lparr>trace := trace w @ TimerUpdate ts # map PassRender (filter (\<lambda>x. enabled (heap w x)) (p_passes w))\<rparr>)"
  by (simp add: render_def for_passes_render emit_def)

lemma addPass_eq:
  "addPass x w =
     (if x \<in> set (p_passes w)
      then (Some (Error (''Unable to add pass '' @ [CHR 0x22] @ name (heap w x) @ [CHR 0x22]
                         @ '' because it was already added'')), w)
      else (None, (registerPass x w)\<lparr>p_passes := p_passes w @ [x],
                                     trace := trace w @ [IOManagerUpdate]\<rparr>))"
  by (simp add: addPass_def indexOf_absent Let_def emit_def registerPass_eq)

lemma p_passes_addPass:
  "p_passes (snd (addPass x w)) = (if x \<in> set (p_passes w) then p_passes w else p_passes w @ [x])"
  by (simp add: addPass_eq registerPass_eq)

lemma heap_addPass:
  "heap (snd (addPass x w)) =
     (if x \<in> set (p_passes w) then heap w
      else (heap w)(x := (heap w x)
         \<lparr>resolution := (case p_renderer w of
              None \<Rightarrow> resolution (heap w x)
            | Some rid \<Rightarrow> setBaseSize (fst (getDrawingBufferSize (renderers w rid)))
                           (snd (getDrawingBufferSize (renderers w rid))) (resolution (heap w x))),
           renderer := p_renderer w, timer := Some (p_timer w)\<rparr>))"
  by (simp add: addPass_eq registerPass_eq)

lemma frame_addPass:
  "p_renderer (snd (addPass x w)) = p_renderer w"
  "p_timer (snd (addPass x w)) = p_timer w"
  "p_resolution (snd (addPass x w)) = p_resolution w"
  "updateStyle (snd (addPass x w)) = updateStyle w"
  "renderers (snd (addPass x w)) = renderers w"
  by (simp_all add: addPass_eq registerPass_eq)

lemma count_rendered:
  "distinct xs \<Longrightarrow>
   count_list (map PassRender (filter P xs)) (PassRender x) = (if x \<in> set xs \<and> P x then 1 else 0)"
  by (induction xs) auto

lemma inv_new:
  "\<forall>x. renderer (h x) = None \<and> timer (h x) = None \<Longrightarrow>
   pipeline_inv (RenderPipeline_new r t (Resolution_new bw bh) h rs)"
  by (simp add: pipeline_inv_def RenderPipeline_new_def Resolution_new_def)

lemma inv_addPass: "pipeline_inv w \<Longrightarrow> pipeline_inv (snd (addPass x w))"
  by (simp add: pipeline_inv_def p_passes_addPass heap_addPass frame_addPass)

lemma inv_removePass: "pipeline_inv w \<Longrightarrow> pipeline_inv (removePass x w)"
  by (auto simp: pipeline_inv_def removePass_eq emit_def unregisterPass_eq update_pass_def)

lemma inv_removeAllPasses: "pipeline_inv w \<Longrightarrow> pipeline_inv (removeAllPasses w)"
  by (simp add: pipeline_inv_def removeAllPasses_eq)

lemma inv_render: "pipeline_inv w \<Longrightarrow> pipeline_inv (render ts w)"
  by (simp add: pipeline_inv_def render_eq)

lemma inv_onResolutionChange: "pipeline_inv w \<Longrightarrow> pipeline_inv (onResolutionChange w)"
proof (cases "p_renderer w")
  case None
  assume "pipeline_inv w"
  with None show ?thesis
    by (simp add: pipeline_inv_def onResolutionChange_None)
next
  case (Some rid)
  assume "pipeline_inv w"
  then show ?thesis
    by (simp add: pipeline_inv_def onResolutionChange_Some [OF Some])
qed

lemma inv_setSize: "pipeline_inv w \<Longrightarrow> pipeline_inv (setSize a b us w)"
proof -
  assume i: "pipeline_inv w"
  have "pipeline_inv (w\<lparr>updateStyle := us, p_resolution := setBaseSize a b (p_resolution w)\<rparr>)"
    using i by (simp add: pipeline_inv_def setBaseSize_def)
  then show ?thesis
    by (simp add: setSize_def Let_def inv_onResolutionChange)
qed

lemma inv_set_renderer: "pipeline_inv w \<Longrightarrow> pipeline_inv (set_renderer v w)"
proof -
  assume i: "pipeline_inv w"
  let ?w = "w\<lparr>p_renderer := v,
              heap := (\<lambda>y. if y \<in> set (p_passes w) then (heap w y)\<lparr>renderer := v\<rparr> else heap w y)\<rparr>"
  have a: "pipeline_inv ?w"
    using i by (simp add: pipeline_inv_def)
  have b: "pipeline_inv (emit IOManagerUpdate (onResolutionChange ?w))"
    using inv_onResolutionChange [OF a] by (simp add: pipeline_inv_def emit_def)
  have "set_renderer v w = (if v \<noteq> None then emit IOManagerUpdate (onResolutionChange ?w) else ?w)"
    by (rule set_renderer_eq)
  also have "pipeline_inv \<dots>"
    using a b by (simp only: if_split) blast
  finally show ?thesis .
qed

lemma inv_dispose: "pipeline_inv w \<Longrightarrow> pipeline_inv (dispose w)"
proof -
  assume i: "pipeline_inv w"
  let ?w = "w\<lparr>trace := trace w @ IOManagerRemovePipeline # map PassDispose (p_passes w)\<rparr>"
  have "pipeline_inv ?w" using i by (simp add: pipeline_inv_def)
  then have "pipeline_inv (removeAllPasses ?w)" by (rule inv_removeAllPasses)
  then show ?thesis by (simp add: dispose_eq emit_def pipeline_inv_def)
qed

lemma inv_exec: "pipeline_inv w \<Longrightarrow> pipeline_inv (exec c w)"
  by (cases c)
    (simp_all add: inv_addPass inv_removePass inv_removeAllPasses inv_render inv_setSize
      inv_set_renderer inv_dispose)

lemma reachable_inv: "reachable w \<Longrightarrow> pipeline_inv w"
proof (induction rule: reachable.induct)
  case (r_new h r t bw bh rs)
  then show ?case by (rule inv_new)
next
  case (r_exec w c)
  then show ?case by (simp add: inv_exec)
qed

lemma reachable_run: "reachable w \<Longrightarrow> reachable (run cs w)"
  by (induction cs arbitrary: w) (simp_all add: r_exec)

lemma Math_round_of_int: "Math_round (of_int n) = of_int n"
  by (simp add: Math_round_def)

section \<open>Adding a pass\<close>

text \<open>
  C3: adding a pass that is already in the pass list (compared by identity) throws an
  Error and leaves the state, so also the pass list with its length and order, as it was;
  adding a pass that is not yet in the list succeeds and puts it at the end of the list,
  the order of the passes before it unchanged.
\<close>

theorem addPass_duplicate_throws_else_appends:
  "(x \<in> set (p_passes w) \<longrightarrow>
      addPass x w = (Some (Error (''Unable to add pass '' @ [CHR 0x22] @ name (heap w x) @ [CHR 0x22]
                                  @ '' because it was already added'')), w)) \<and>
   (x \<notin> set (p_passes w) \<longrightarrow>
      fst (addPass x w) = None \<and> p_passes (snd (addPass x w)) = p_passes w @ [x])"
  by (simp add: addPass_eq)

text \<open>The example pipeline holds the passes 0, 1 and 2; pass 1 is disabled.\<close>

lemma p_passes_world_3: "p_passes world_3 = [0, 1, 2]"
  by (simp add: world_3_def world_new_def p_passes_addPass RenderPipeline_new_def)

theorem addPass_duplicate_throws_else_appends_witness:
  "0 \<in> set (p_passes world_3) \<and>
   addPass 0 world_3 = (Some (Error (''Unable to add pass '' @ [CHR 0x22] @ ''pass'' @ [CHR 0x22]
                                  @ '' because it was already added'')), world_3) \<and>
   5 \<notin> set (p_passes world_3) \<and>
   fst (addPass 5 world_3) = None \<and> p_passes (snd (addPass 5 world_3)) = [0, 1, 2, 5]"
proof -
  have n: "name (heap world_3 0) = ''pass''"
    by (simp add: world_3_def world_new_def heap_addPass p_passes_addPass RenderPipeline_new_def
        example_pass_def)
  from addPass_duplicate_throws_else_appends [of 0 world_3]
    addPass_duplicate_throws_else_appends [of 5 world_3]
  show ?thesis by (simp add: p_passes_world_3 n)
qed

section \<open>Rendering a frame\<close>

text \<open>
  C2: without a renderer, \<open>render\<close> changes nothing: no timer update, no pass rendered,
  nothing thrown. With a renderer it appends to the trace the timer update with the given
  timestamp and then one render call for each enabled pass, in the order of the pass list,
  and changes nothing else; when no pass is listed twice, an enabled pass of the list is
  rendered exactly once and any other pass not at all.
\<close>

theorem render_null_noop_else_timer_then_enabled_passes:
  "(p_renderer w = None \<longrightarrow> render ts w = w) \<and>
   (p_renderer w \<noteq> None \<longrightarrow>
      render ts w = w\<lparr>trace := trace w @ TimerUpdate ts #
                        map PassRender (filter (\<lambda>x. enabled (heap w x)) (p_passes w))\<rparr> \<and>
      (distinct (p_passes w) \<longrightarrow>
         count_list (new_events w (render ts w)) (PassRender x) =
           (if x \<in> set (p_passes w) \<and> enabled (heap w x) then 1 else 0)))"
  by (simp add: render_eq new_events_def count_rendered)

theorem render_null_noop_else_timer_then_enabled_passes_witness:
  "p_renderer world_null_1 = None \<and> render (Some 16) world_null_1 = world_null_1 \<and>
   p_renderer world_3 \<noteq> None \<and> distinct (p_passes world_3) \<and>
   new_events world_3 (render (Some 16) world_3) = [TimerUpdate (Some 16), PassRender 0, PassRender 2] \<and>
   count_list (new_events world_3 (render (Some 16) world_3)) (PassRender 2) = 1 \<and>
   count_list (new_events world_3 (render (Some 16) world_3)) (PassRender 1) = 0"
proof -
  have a: "p_renderer world_null_1 = None"
    by (simp add: world_null_1_def world_null_def frame_addPass RenderPipeline_new_def)
  have b: "p_renderer world_3 = Some 0"
    by (simp add: world_3_def world_new_def frame_addPass RenderPipeline_new_def)
  have e: "enabled (heap world_3 x) = (x \<noteq> 1)" for x
    by (simp add: world_3_def world_new_def heap_addPass p_passes_addPass RenderPipeline_new_def
        example_pass_def)
  from render_null_noop_else_timer_then_enabled_passes [of world_null_1 "Some 16"]
    render_null_noop_else_timer_then_enabled_passes [of world_3 "Some 16" 2]
    render_null_noop_else_timer_then_enabled_passes [of world_3 "Some 16" 1]
  show ?thesis by (simp add: a b e p_passes_world_3 new_events_def)
qed

section \<open>Resizing\<close>

text \<open>The example pipelines are reachable states.\<close>

lemma reachable_world_new: "reachable world_new"
  unfolding world_new_def by (rule r_new) (simp add: example_pass_def)

lemma reachable_world_3: "reachable world_3"
proof -
  have "world_3 = run [AddPass 0, AddPass 1, AddPass 2] world_new"
    by (simp add: world_3_def)
  with reachable_run [OF reachable_world_new, of "[AddPass 0, AddPass 1, AddPass 2]"]
  show ?thesis by simp
qed

lemma reachable_world_null_1: "reachable world_null_1"
proof -
  have "reachable world_null"
    unfolding world_null_def by (rule r_new) (simp add: example_pass_def)
  then have "reachable (exec (AddPass 0) world_null)" by (rule r_exec)
  then show ?thesis by (simp add: world_null_1_def)
qed

lemma setSize_Some:
  assumes "p_renderer w = Some rid"
  shows "setSize a b us w =
     (w\<lparr>updateStyle := us, p_resolution := setBaseSize a b (p_resolution w),
       renderers := (renderers w)(rid := renderer_setSize
           (Math_round (a * scale (p_resolution w))) (Math_round (b * scale (p_resolution w)))
           (renderers w rid)),
       trace := trace w @
         (if r_width (renderers w rid) \<noteq> Math_round (a * scale (p_resolution w)) \<or>
             r_height (renderers w rid) \<noteq> Math_round (b * scale (p_resolution w))
          then [RendererSetSize rid (Math_round (a * scale (p_resolution w)))
                  (Math_round (b * scale (p_resolution w))) us]
          else []),
       heap := (\<lambda>y. if y \<in> set (p_passes w)
                    then (heap w y)\<lparr>resolution := setBaseSize
                           (Math_round (Math_round (a * scale (p_resolution w)) * pixelRatio (renderers w rid)))
                           (Math_round (Math_round (b * scale (p_resolution w)) * pixelRatio (renderers w rid)))
                           (resolution (heap w y))\<rparr>
                    else heap w y)\<rparr>)" (is "_ = ?thesis_rhs")
proof -
  let ?w = "w\<lparr>updateStyle := us, p_resolution := setBaseSize a b (p_resolution w)\<rparr>"
  have r: "p_renderer ?w = Some rid" using assms by simp
  have "setSize a b us w = onResolutionChange ?w"
    by (simp add: setSize_def Let_def)
  also have "\<dots> = ?thesis_rhs"
    unfolding onResolutionChange_Some [OF r]
    by (simp add: Resolution_width_def Resolution_height_def setBaseSize_def
        cong del: if_weak_cong)
  finally show ?thesis .
qed

text \<open>
  C1: in every reachable state of a pipeline with a renderer, when \<open>setSize(W, H)\<close> returns
  the renderer and the pass list are the same as before, the renderer's drawing-buffer
  size is round(W * S) by round(H * S), S being the renderer's device pixel ratio, and the
  base size of the Resolution of every pass of the list equals that drawing-buffer size.
  W and H are integers, as the resize boundary has them.
\<close>

theorem setSize_syncs_passes_to_drawing_buffer:
  assumes "reachable w" and "p_renderer w = Some rid"
  shows "p_renderer (setSize (of_int W) (of_int H) us w) = Some rid \<and>
         p_passes (setSize (of_int W) (of_int H) us w) = p_passes w \<and>
         getDrawingBufferSize (renderers (setSize (of_int W) (of_int H) us w) rid) =
           (Math_round (of_int W * pixelRatio (renderers w rid)),
            Math_round (of_int H * pixelRatio (renderers w rid))) \<and>
         (\<forall>x \<in> set (p_passes w).
            baseSize (heap (setSize (of_int W) (of_int H) us w) x) =
            getDrawingBufferSize (renderers (setSize (of_int W) (of_int H) us w) rid))"
proof -
  from assms(1) have "scale (p_resolution w) = 1"
    using reachable_inv by (simp add: pipeline_inv_def)
  then show ?thesis
    by (simp add: setSize_Some [OF assms(2)] assms(2) getDrawingBufferSize_def
        renderer_setSize_def baseSize_def setBaseSize_def Math_round_of_int)
qed

theorem setSize_syncs_passes_to_drawing_buffer_witness:
  "reachable world_3 \<and> p_renderer world_3 = Some 0 \<and>
   p_passes (setSize 800 600 True world_3) = [0, 1, 2] \<and>
   baseSize (heap (setSize 800 600 True world_3) 0) = (1600, 1200) \<and>
   baseSize (heap (setSize 800 600 True world_3) 1) = (1600, 1200) \<and>
   baseSize (heap (setSize 800 600 True world_3) 2) = (1600, 1200)"
proof -
  have b: "p_renderer world_3 = Some 0"
    by (simp add: world_3_def world_new_def frame_addPass RenderPipeline_new_def)
  have r: "pixelRatio (renderers world_3 0) = 2"
    by (simp add: world_3_def world_new_def frame_addPass RenderPipeline_new_def
        example_renderer_def)
  have m: "Math_round 1600 = 1600" "Math_round 1200 = 1200"
    by (simp_all add: Math_round_def)
  from setSize_syncs_passes_to_drawing_buffer [OF reachable_world_3 b, of 800 600 True]
  show ?thesis by (simp add: reachable_world_3 b r m p_passes_world_3)
qed

lemma updateStyle_frames:
  "updateStyle (snd (addPass x w)) = updateStyle w"
  "updateStyle (removePass x w) = updateStyle w"
  "updateStyle (removeAllPasses w) = updateStyle w"
  "updateStyle (render ts w) = updateStyle w"
  "updateStyle (onResolutionChange w) = updateStyle w"
  "updateStyle (set_renderer v w) = updateStyle w"
  "updateStyle (dispose w) = updateStyle w"
  "updateStyle (setSize a b us w) = us"
proof -
  show o: "updateStyle (onResolutionChange w) = updateStyle w" for w
    by (cases "p_renderer w") (simp_all add: onResolutionChange_None onResolutionChange_Some)
  show "updateStyle (snd (addPass x w)) = updateStyle w"
    by (simp add: frame_addPass)
  show "updateStyle (removePass x w) = updateStyle w"
    by (simp add: removePass_eq emit_def unregisterPass_eq update_pass_def)
  show "updateStyle (removeAllPasses w) = updateStyle w"
    by (simp add: removeAllPasses_eq)
  show "updateStyle (render ts w) = updateStyle w"
    by (simp add: render_eq)
  show "updateStyle (set_renderer v w) = updateStyle w"
    by (simp add: set_renderer_eq emit_def o)
  show "updateStyle (dispose w) = updateStyle w"
    by (simp add: dispose_eq emit_def removeAllPasses_eq)
  show "updateStyle (setSize a b us w) = us"
    by (simp add: setSize_def Let_def o)
qed

lemma updateStyle_exec:
  "updateStyle (exec c w) = (case c of SetSize width height us \<Rightarrow> us | _ \<Rightarrow> updateStyle w)"
  by (cases c) (simp_all add: updateStyle_frames)

lemma updateStyle_run: "updateStyle (run cs w) = last_updateStyle cs (updateStyle w)"
  by (induction cs arbitrary: w) (simp_all add: updateStyle_exec)

lemma style_flags_append: "style_flags (xs @ ys) = style_flags xs @ style_flags ys"
  by (induction xs) (simp_all split: event.splits)

lemma new_events_onResolutionChange:
  "new_events w (onResolutionChange w) =
     (case p_renderer w of
        None \<Rightarrow> [LogDebug ''Unable to update the render size because the renderer is null'']
      | Some rid \<Rightarrow>
          (if r_width (renderers w rid) \<noteq> Resolution_width (p_resolution w) \<or>
              r_height (renderers w rid) \<noteq> Resolution_height (p_resolution w)
           then [RendererSetSize rid (Resolution_width (p_resolution w))
                   (Resolution_height (p_resolution w)) (updateStyle w)]
           else []))"
  by (cases "p_renderer w")
    (simp_all add: new_events_def onResolutionChange_None onResolutionChange_Some)

lemma new_events_setSize:
  "new_events w (setSize a b us w) =
     (case p_renderer w of
        None \<Rightarrow> [LogDebug ''Unable to update the render size because the renderer is null'']
      | Some rid \<Rightarrow>
          (if r_width (renderers w rid) \<noteq> Math_round (a * scale (p_resolution w)) \<or>
              r_height (renderers w rid) \<noteq> Math_round (b * scale (p_resolution w))
           then [RendererSetSize rid (Math_round (a * scale (p_resolution w)))
                   (Math_round (b * scale (p_resolution w))) us]
           else []))"
proof -
  let ?w = "w\<lparr>updateStyle := us, p_resolution := setBaseSize a b (p_resolution w)\<rparr>"
  have "new_events w (setSize a b us w) = new_events ?w (onResolutionChange ?w)"
    by (simp add: setSize_def Let_def new_events_def)
  then show ?thesis
    unfolding new_events_onResolutionChange
    by (simp add: Resolution_width_def Resolution_height_def setBaseSize_def split: option.splits)
qed

lemma new_events_set_renderer:
  "new_events w (set_renderer (Some rid) w) =
     (if r_width (renderers w rid) \<noteq> Resolution_width (p_resolution w) \<or>
         r_height (renderers w rid) \<noteq> Resolution_height (p_resolution w)
      then [RendererSetSize rid (Resolution_width (p_resolution w))
              (Resolution_height (p_resolution w)) (updateStyle w)]
      else []) @ [IOManagerUpdate]"
proof -
  let ?w = "w\<lparr>p_renderer := Some rid,
              heap := (\<lambda>y. if y \<in> set (p_passes w) then (heap w y)\<lparr>renderer := Some rid\<rparr>
                            else heap w y)\<rparr>"
  have r: "p_renderer ?w = Some rid" by simp
  show ?thesis
    by (simp add: set_renderer_eq new_events_def emit_def onResolutionChange_Some [OF r])
qed

text \<open>
  C10: \<open>setSize(w, h, updateStyle)\<close> stores its third argument in the pipeline's
  \<open>updateStyle\<close> before the resize is applied, so the renderer, if it is resized by this
  call, is resized with that argument. After any further calls the field holds the
  argument of the most recent \<open>setSize\<close> among them, and a renderer attached then is
  resized, if at all, with that value and not with the constructor's default.
\<close>

theorem setSize_updateStyle_persists:
  "updateStyle (setSize a b us w) = us \<and>
   style_flags (new_events w (setSize a b us w)) =
     (case p_renderer w of
        None \<Rightarrow> []
      | Some rid \<Rightarrow>
          (if r_width (renderers w rid) \<noteq> Math_round (a * scale (p_resolution w)) \<or>
              r_height (renderers w rid) \<noteq> Math_round (b * scale (p_resolution w))
           then [us] else [])) \<and>
   updateStyle (run cs (setSize a b us w)) = last_updateStyle cs us \<and>
   style_flags (new_events (run cs (setSize a b us w))
                  (set_renderer (Some rid') (run cs (setSize a b us w)))) =
     (if r_width (renderers (run cs (setSize a b us w)) rid') \<noteq>
           Resolution_width (p_resolution (run cs (setSize a b us w))) \<or>
         r_height (renderers (run cs (setSize a b us w)) rid') \<noteq>
           Resolution_height (p_resolution (run cs (setSize a b us w)))
      then [last_updateStyle cs us] else [])"
  by (simp add: updateStyle_frames new_events_setSize new_events_set_renderer updateStyle_run
      style_flags_append split: option.splits)

theorem setSize_updateStyle_persists_witness:
  "updateStyle world_null = True \<and> p_renderer world_null = None \<and>
   updateStyle (setSize 800 600 False world_null) = False \<and>
   updateStyle (run [AddPass 0, Render None] (setSize 800 600 False world_null)) = False \<and>
   style_flags (new_events (run [AddPass 0, Render None] (setSize 800 600 False world_null))
       (set_renderer (Some 0) (run [AddPass 0, Render None] (setSize 800 600 False world_null))))
     = [False]"
proof -
  let ?w = "render None (snd (addPass 0 (setSize 800 600 False world_null)))"
  have n: "p_renderer world_null = None" "updateStyle world_null = True"
    by (simp_all add: world_null_def RenderPipeline_new_def)
  have s: "setSize 800 600 False world_null =
           world_null\<lparr>updateStyle := False, p_resolution := Resolution_new 800 600,
             trace := trace world_null @
               [LogDebug ''Unable to update the render size because the renderer is null'']\<rparr>"
    by (simp add: setSize_def Let_def onResolutionChange_None n)
      (simp add: world_null_def RenderPipeline_new_def Resolution_new_def setBaseSize_def)
  have r: "renderers ?w 0 = example_renderer 0"
    by (simp add: s frame_addPass render_eq) (simp add: world_null_def RenderPipeline_new_def)
  have p: "p_resolution ?w = Resolution_new 800 600"
    by (simp add: s frame_addPass render_eq)
  have m: "Math_round 800 = 800"
    by (simp add: Math_round_def)
  have u: "updateStyle (setSize 800 600 False world_null) = False"
    by (simp add: s)
  from setSize_updateStyle_persists [of 800 600 False world_null "[AddPass 0, Render None]" 0]
  show ?thesis
    by (simp add: n r p m u example_renderer_def Resolution_width_def Resolution_new_def)
qed

section \<open>The handles of a pass\<close>

text \<open>
  C4, as stated, fails: a pipeline constructed without a renderer is a valid state, and a
  pass added to it is in the pass list with a timer handle and a null renderer handle.
\<close>

theorem member_pass_with_null_renderer:
  "reachable world_null_1 \<and> 0 \<in> set (p_passes world_null_1) \<and>
   renderer (heap world_null_1 0) = None \<and> timer (heap world_null_1 0) = Some 7"
  by (simp add: reachable_world_null_1)
    (simp add: world_null_1_def world_null_def p_passes_addPass heap_addPass
      RenderPipeline_new_def)

text \<open>
  C4, amended: in every state one pipeline reaches through its interface, from passes
  constructed with null handles, the timer handle of a pass is non-null exactly when the
  pass is in the pass list, and then it is the pipeline's timer; the renderer handle of a
  listed pass is the pipeline's renderer, which may be null, and that of any other pass is
  null. \<open>addPass\<close> gives a new pass the pipeline's timer and renderer,
  \<open>removePass\<close> and \<open>removeAllPasses\<close> reset both handles to null, and assigning the
  pipeline's renderer assigns the handle of every listed pass.
\<close>

theorem pass_handles_follow_membership:
  assumes "reachable w"
  shows "(timer (heap w x) \<noteq> None \<longleftrightarrow> x \<in> set (p_passes w)) \<and>
         (renderer (heap w x) \<noteq> None \<longleftrightarrow> x \<in> set (p_passes w) \<and> p_renderer w \<noteq> None) \<and>
         (x \<in> set (p_passes w) \<longrightarrow>
            timer (heap w x) = Some (p_timer w) \<and> renderer (heap w x) = p_renderer w) \<and>
         (x \<notin> set (p_passes w) \<longrightarrow>
            fst (addPass x w) = None \<and>
            timer (heap (snd (addPass x w)) x) = Some (p_timer w) \<and>
            renderer (heap (snd (addPass x w)) x) = p_renderer w) \<and>
         timer (heap (removePass x w) x) = None \<and>
         renderer (heap (removePass x w) x) = None \<and>
         timer (heap (removeAllPasses w) x) = None \<and>
         renderer (heap (removeAllPasses w) x) = None \<and>
         (p_renderer (set_renderer v w) = v \<and>
          (x \<in> set (p_passes w) \<longrightarrow> renderer (heap (set_renderer v w) x) = v))"
proof -
  from assms have i: "pipeline_inv w" by (rule reachable_inv)
  then have h: "timer (heap w y) = (if y \<in> set (p_passes w) then Some (p_timer w) else None)"
    "renderer (heap w y) = (if y \<in> set (p_passes w) then p_renderer w else None)" for y
    by (simp_all add: pipeline_inv_def)
  from assms have "reachable (exec (SetRenderer v) w)" by (rule r_exec)
  then have "pipeline_inv (set_renderer v w)" using reachable_inv by fastforce
  then have s: "renderer (heap (set_renderer v w) x) =
                (if x \<in> set (p_passes (set_renderer v w)) then p_renderer (set_renderer v w) else None)"
    by (simp add: pipeline_inv_def)
  have o: "p_renderer (onResolutionChange u) = p_renderer u \<and>
           p_passes (onResolutionChange u) = p_passes u" for u
    by (cases "p_renderer u") (simp_all add: onResolutionChange_None onResolutionChange_Some)
  have f: "p_renderer (set_renderer v w) = v" "p_passes (set_renderer v w) = p_passes w"
    by (simp_all add: set_renderer_eq emit_def o)
  show ?thesis
    using s
    by (simp add: h f addPass_eq registerPass_eq removePass_eq removeAllPasses_eq emit_def
        unregisterPass_eq update_pass_def)
qed

theorem pass_handles_follow_membership_witness:
  "reachable world_3 \<and> 2 \<in> set (p_passes world_3) \<and> 5 \<notin> set (p_passes world_3) \<and>
   timer (heap world_3 2) = Some 7 \<and> renderer (heap world_3 2) = Some 0 \<and>
   timer (heap world_3 5) = None \<and> renderer (heap world_3 5) = None \<and>
   timer (heap (snd (addPass 5 world_3)) 5) = Some 7 \<and>
   renderer (heap (snd (addPass 5 world_3)) 5) = Some 0 \<and>
   timer (heap (removePass 2 world_3) 2) = None \<and>
   renderer (heap (removePass 2 world_3) 2) = None \<and>
   renderer (heap (set_renderer None world_3) 2) = None"
proof -
  have b: "p_renderer world_3 = Some 0" "p_timer world_3 = 7"
    by (simp_all add: world_3_def world_new_def frame_addPass RenderPipeline_new_def)
  from pass_handles_follow_membership [OF reachable_world_3, of 2 None]
    pass_handles_follow_membership [OF reachable_world_3, of 5 None]
  show ?thesis by (simp add: reachable_world_3 b p_passes_world_3)
qed

section \<open>EffectMaterial: uniforms and the colour space macro\<close>

lemma assign_entries_eq: "assign_entries es obj = obj ++ map_of (rev es)"
proof (induction es arbitrary: obj)
  case Nil
  show ?case by simp
next
  case (Cons entry es)
  have "assign_entries (entry # es) obj = obj(fst entry \<mapsto> snd entry) ++ map_of (rev es)"
    by (simp only: assign_entries.simps Cons)
  also have "\<dots> = obj ++ map_of (rev (entry # es))"
    by (cases entry) (simp add: map_add_upd_left fun_eq_iff map_add_def split: option.splits)
  finally show ?case .
qed

text \<open>
  C6, as stated, fails: \<open>setUniforms\<close> with a uniform name that the material has not
  declared adds the uniform and leaves the recompilation flag as it was.
\<close>

theorem setUniforms_new_name_no_flag:
  "uniforms example_material ''count'' = None \<and>
   uniforms (setUniforms [(''count'', Number 750)] example_material) ''count'' = Some (Number 750) \<and>
   \<not> needsUpdate (setUniforms [(''count'', Number 750)] example_material) \<and>
   version (setUniforms [(''count'', Number 750)] example_material) = version example_material"
  by (simp add: setUniforms_def example_material_def)

text \<open>
  C6, amended: \<open>setUniforms(u)\<close> merges \<open>u\<close> into the material's uniforms, the later
  writer winning where names collide, and never touches the recompilation flag, whether
  \<open>u\<close> only changes uniforms already declared or introduces new names; macros and shader
  sources are unchanged as well.
\<close>

theorem setUniforms_merges_and_never_flags:
  "uniforms (setUniforms us m) k =
     (case map_of (rev us) k of Some v \<Rightarrow> Some v | None \<Rightarrow> uniforms m k) \<and>
   needsUpdate (setUniforms us m) = needsUpdate m \<and>
   version (setUniforms us m) = version m \<and>
   m_defines (setUniforms us m) = m_defines m \<and>
   fragmentShader (setUniforms us m) = fragmentShader m \<and>
   vertexShader (setUniforms us m) = vertexShader m"
  by (simp add: setUniforms_def assign_entries_eq map_add_def)

text \<open>
  C7: assigning \<open>colorSpaceConversion\<close> its current value changes nothing. Assigning the
  other value adds the macro COLOR_SPACE_CONVERSION (for \<open>true\<close>) or removes it (for
  \<open>false\<close>), leaves every other macro alone, and sets the recompilation flag exactly once.
\<close>

theorem colorSpaceConversion_set_same_noop_else_flip:
  "set_colorSpaceConversion (colorSpaceConversion m) m = m \<and>
   (v \<noteq> colorSpaceConversion m \<longrightarrow>
      colorSpaceConversion (set_colorSpaceConversion v m) = v \<and>
      m_defines (set_colorSpaceConversion v m) =
        (m_defines m)(''COLOR_SPACE_CONVERSION'' := (if v then Some (DString ''1'') else None)) \<and>
      needsUpdate (set_colorSpaceConversion v m) \<and>
      version (set_colorSpaceConversion v m) = version m + 1 \<and>
      uniforms (set_colorSpaceConversion v m) = uniforms m \<and>
      fragmentShader (set_colorSpaceConversion v m) = fragmentShader m \<and>
      vertexShader (set_colorSpaceConversion v m) = vertexShader m)"
  by (simp add: set_colorSpaceConversion_def colorSpaceConversion_def set_needsUpdate_def)

theorem colorSpaceConversion_set_same_noop_else_flip_witness:
  "colorSpaceConversion example_material = False \<and>
   set_colorSpaceConversion False example_material = example_material \<and>
   colorSpaceConversion (set_colorSpaceConversion True example_material) = True \<and>
   version (set_colorSpaceConversion True example_material) = 1 \<and>
   set_colorSpaceConversion True (set_colorSpaceConversion True example_material) =
     set_colorSpaceConversion True example_material \<and>
   version (set_colorSpaceConversion False (set_colorSpaceConversion True example_material)) = 2"
proof -
  have c: "colorSpaceConversion example_material = False"
    by (simp add: colorSpaceConversion_def example_material_def)
  have v: "version example_material = 0"
    by (simp add: example_material_def)
  from colorSpaceConversion_set_same_noop_else_flip [of example_material True]
    colorSpaceConversion_set_same_noop_else_flip [of "set_colorSpaceConversion True example_material" False]
  show ?thesis by (simp add: c v)
qed

section \<open>ScanlineEffect\<close>

lemma set_scrollSpeed_declared:
  assumes "input_uniforms e ''scrollSpeed'' \<noteq> None"
  shows "set_scrollSpeed v e =
     Inr (if v = 0
          then (if input_defines e ''SCROLL'' \<noteq> None
                then e\<lparr>input_uniforms := (input_uniforms e)(''scrollSpeed'' \<mapsto> v),
                       input_defines := (input_defines e)(''SCROLL'' := None),
                       changed := changed e + 1\<rparr>
                else e\<lparr>input_uniforms := (input_uniforms e)(''scrollSpeed'' \<mapsto> v)\<rparr>)
          else if input_defines e ''SCROLL'' = None
          then e\<lparr>input_uniforms := (input_uniforms e)(''scrollSpeed'' \<mapsto> v),
                 input_defines := (input_defines e)(''SCROLL'' \<mapsto> ''1''),
                 changed := changed e + 1\<rparr>
          else e\<lparr>input_uniforms := (input_uniforms e)(''scrollSpeed'' \<mapsto> v)\<rparr>)"
  using assms
  by (auto simp: set_scrollSpeed_def set_uniform_value_def setChanged_def)

text \<open>
  The constructor trips the dirty signal once, by assigning the fragment shader, and once
  more if the scroll speed it is given is not 0.
\<close>

lemma ScanlineEffect_new_eq:
  "ScanlineEffect_new src dopt sopt res =
     Inr (let dens = (case dopt of None \<Rightarrow> 1.25 | Some x \<Rightarrow> x);
              speed = (case sopt of None \<Rightarrow> 0 | Some x \<Rightarrow> x)
          in \<lparr>density = dens,
              e_fragmentShader = Some src,
              input_uniforms = [''count'' \<mapsto> 0, ''scrollSpeed'' \<mapsto> speed],
              input_defines = (if speed = 0 then Map.empty else [''SCROLL'' \<mapsto> ''1'']),
              e_resolution = res,
              changed = (if speed = 0 then 1 else 2)\<rparr>)"
  by (cases sopt)
    (simp_all add: ScanlineEffect_new_def Let_def Effect_new_def set_fragmentShader_def
      setChanged_def set_scrollSpeed_declared)

text \<open>
  C5: the constructor with a scroll speed of 0, given or by default, returns an effect
  that does not declare the macro SCROLL. On an effect that declares the uniform
  \<open>scrollSpeed\<close>, assigning the scroll speed always succeeds and stores the value; a
  nonzero value adds SCROLL and trips the dirty signal once when SCROLL was not declared,
  and changes neither the macros nor the signal when it was; 0 removes SCROLL and trips
  the signal once when SCROLL was declared, and changes neither otherwise.
\<close>

theorem scrollSpeed_toggles_SCROLL_once:
  "(\<exists>e0. ScanlineEffect_new src dopt None res = Inr e0 \<and> input_defines e0 ''SCROLL'' = None \<and>
         input_uniforms e0 ''scrollSpeed'' = Some 0) \<and>
   (\<exists>e0. ScanlineEffect_new src dopt (Some 0) res = Inr e0 \<and> input_defines e0 ''SCROLL'' = None \<and>
         input_uniforms e0 ''scrollSpeed'' = Some 0) \<and>
   (input_uniforms e ''scrollSpeed'' \<noteq> None \<longrightarrow>
      (\<exists>e'. set_scrollSpeed v e = Inr e' \<and>
            input_uniforms e' = (input_uniforms e)(''scrollSpeed'' \<mapsto> v) \<and>
            (v \<noteq> 0 \<and> input_defines e ''SCROLL'' = None \<longrightarrow>
               input_defines e' = (input_defines e)(''SCROLL'' \<mapsto> ''1'') \<and>
               changed e' = changed e + 1) \<and>
            (v = 0 \<and> input_defines e ''SCROLL'' \<noteq> None \<longrightarrow>
               input_defines e' = (input_defines e)(''SCROLL'' := None) \<and>
               changed e' = changed e + 1) \<and>
            (v \<noteq> 0 \<and> input_defines e ''SCROLL'' \<noteq> None \<longrightarrow>
               input_defines e' = input_defines e \<and> changed e' = changed e) \<and>
            (v = 0 \<and> input_defines e ''SCROLL'' = None \<longrightarrow>
               input_defines e' = input_defines e \<and> changed e' = changed e)))"
proof (intro conjI impI)
  show "\<exists>e0. ScanlineEffect_new src dopt None res = Inr e0 \<and> input_defines e0 ''SCROLL'' = None \<and>
         input_uniforms e0 ''scrollSpeed'' = Some 0"
    by (simp add: ScanlineEffect_new_eq)
next
  show "\<exists>e0. ScanlineEffect_new src dopt (Some 0) res = Inr e0 \<and> input_defines e0 ''SCROLL'' = None \<and>
         input_uniforms e0 ''scrollSpeed'' = Some 0"
    by (simp add: ScanlineEffect_new_eq)
next
  assume d: "input_uniforms e ''scrollSpeed'' \<noteq> None"
  show "\<exists>e'. set_scrollSpeed v e = Inr e' \<and>
            input_uniforms e' = (input_uniforms e)(''scrollSpeed'' \<mapsto> v) \<and>
            (v \<noteq> 0 \<and> input_defines e ''SCROLL'' = None \<longrightarrow>
               input_defines e' = (input_defines e)(''SCROLL'' \<mapsto> ''1'') \<and>
               changed e' = changed e + 1) \<and>
            (v = 0 \<and> input_defines e ''SCROLL'' \<noteq> None \<longrightarrow>
               input_defines e' = (input_defines e)(''SCROLL'' := None) \<and>
               changed e' = changed e + 1) \<and>
            (v \<noteq> 0 \<and> input_defines e ''SCROLL'' \<noteq> None \<longrightarrow>
               input_defines e' = input_defines e \<and> changed e' = changed e) \<and>
            (v = 0 \<and> input_defines e ''SCROLL'' = None \<longrightarrow>
               input_defines e' = input_defines e \<and> changed e' = changed e)"
    unfolding set_scrollSpeed_declared [OF d] by auto
qed

theorem scrollSpeed_toggles_SCROLL_once_witness:
  "input_uniforms example_effect ''scrollSpeed'' \<noteq> None \<and>
   input_defines example_effect ''SCROLL'' = None \<and>
   input_defines (projr (set_scrollSpeed 0.006 example_effect)) ''SCROLL'' = Some ''1'' \<and>
   changed (projr (set_scrollSpeed 0.006 example_effect)) = changed example_effect + 1 \<and>
   input_uniforms example_effect_scrolling ''scrollSpeed'' \<noteq> None \<and>
   input_defines example_effect_scrolling ''SCROLL'' \<noteq> None \<and>
   input_defines (projr (set_scrollSpeed 0.006 example_effect_scrolling)) ''SCROLL'' = Some ''1'' \<and>
   changed (projr (set_scrollSpeed 0.006 example_effect_scrolling)) = changed example_effect_scrolling \<and>
   input_defines (projr (set_scrollSpeed 0 example_effect_scrolling)) ''SCROLL'' = None \<and>
   changed (projr (set_scrollSpeed 0 example_effect_scrolling)) = changed example_effect_scrolling + 1"
proof -
  have a: "input_uniforms example_effect ''scrollSpeed'' \<noteq> None"
    "input_defines example_effect ''SCROLL'' = None"
    by (simp_all add: example_effect_def)
  have b: "input_uniforms example_effect_scrolling ''scrollSpeed'' \<noteq> None"
    "input_defines example_effect_scrolling ''SCROLL'' = Some ''1''"
    by (simp_all add: example_effect_scrolling_def)
  from scrollSpeed_toggles_SCROLL_once [of "[]" None "Resolution_new 0 0" example_effect "0.006"]
    scrollSpeed_toggles_SCROLL_once [of "[]" None "Resolution_new 0 0" example_effect_scrolling "0.006"]
    scrollSpeed_toggles_SCROLL_once [of "[]" None "Resolution_new 0 0" example_effect_scrolling 0]
  show ?thesis using a b by auto
qed

text \<open>Doubles used in the examples, and the products the examples compute.\<close>

lemma to_double_examples:
  "to_double 600 = 600" "to_double 640 = 640" "to_double 1000 = 1000" "to_double 45 = 45"
  "to_double (5 / 4) = 5 / 4" "to_double 750 = 750" "to_double 800 = 800"
  "to_double double_0_7 = double_0_7" "to_double (7 / 10) = double_0_7"
  by (simp_all add: to_double_def ulp_def binary_exponent_def round_half_even_def Let_def
      bitlength.simps double_0_7_def)

lemma double_value_examples:
  "double_value 600" "double_value 640" "double_value 45" "double_value (5 / 4)"
  "double_value double_0_7" "\<not> double_value (7 / 10)"
  by (simp_all add: double_value_def to_double_examples) (simp_all add: double_0_7_def)

lemma double_mul_examples:
  "double_mul 600 (5 / 4) = 750" "double_mul 640 (5 / 4) = 800"
  "Math_round (double_mul 45 double_0_7) = 31" "Math_round (45 * (7 / 10)) = 32"
  "Math_round (double_mul 5 (to_double (3 / 10))) = 2" "Math_round (5 * to_double (3 / 10)) = 1"
  by (simp_all add: double_mul_def to_double_examples)
    (simp_all add: to_double_def ulp_def binary_exponent_def round_half_even_def Let_def
      bitlength.simps double_0_7_def Math_round_def)

lemma updateCount_declared:
  "input_uniforms e ''count'' \<noteq> None \<Longrightarrow>
   updateCount h e =
     Inr (e\<lparr>input_uniforms := (input_uniforms e)(''count'' \<mapsto> Math_round (double_mul h (density e)))\<rparr>)"
  by (auto simp: updateCount_def set_uniform_value_def)


text \<open>
  The example effect is the state of a default effect after its host resized it to 800 by
  600: density 1.25 and count 750.
\<close>

lemma example_effect_constructed:
  "\<exists>e0. ScanlineEffect_new ''void mainImage() {}'' None None (Resolution_new 0 0) = Inr e0 \<and>
        effect_resize 800 600 e0 = Inr example_effect"
  by (auto simp: ScanlineEffect_new_eq effect_resize_def Let_def effect_onResolutionChange_def
      updateCount_declared example_effect_def Resolution_new_def setBaseSize_def
      Resolution_height_def Math_round_def double_mul_examples fun_eq_iff)

text \<open>
  C9, as stated, fails: \<open>setSize(1000, 640)\<close> on that effect recomputes the count from
  its height argument and leaves the effect's Resolution alone, so the count is 800 while
  round(h * d) for the effect's resolution height 600 is 750.
\<close>

theorem setSize_count_not_from_resolution:
  "count_uniform example_effect =
     Some (Math_round (double_mul (Resolution_height (e_resolution example_effect))
                                  (density example_effect))) \<and>
   double_product 640 (density example_effect) \<and>
   \<not> isl (effect_setSize 1000 640 example_effect) \<and>
   count_uniform (projr (effect_setSize 1000 640 example_effect)) = Some 800 \<and>
   Math_round (double_mul
       (Resolution_height (e_resolution (projr (effect_setSize 1000 640 example_effect))))
       (density (projr (effect_setSize 1000 640 example_effect)))) = 750"
proof -
  have d: "input_uniforms example_effect ''count'' \<noteq> None"
    by (simp add: example_effect_def)
  have m: "Math_round 750 = 750" "Math_round 800 = 800" "Math_round 600 = 600"
    by (simp_all add: Math_round_def)
  have p: "double_product 640 (5 / 4)"
    by (simp add: double_product_def double_value_examples)
  show ?thesis
    unfolding effect_setSize_def updateCount_declared [OF d]
    by (simp add: count_uniform_def example_effect_def Resolution_new_def Resolution_height_def
        double_mul_examples m p)
qed

text \<open>
  C9, amended: on an effect that declares the uniform \<open>count\<close>, and for a height and a
  density that are finite doubles with a finite product, each recomputation succeeds and
  sets the count to round(h * d), the product being the product of doubles that the
  program computes. Assigning the density uses the effect's current resolution height; a
  resolution change uses the height of the changed Resolution, so that the count then
  equals round(h * d) for the effect's resolution height h, whatever the width, and a
  resize to the height the effect already has leaves a count that had this value
  unchanged; \<open>setSize(w, h)\<close> uses its own argument and leaves the effect's Resolution as
  it was.
\<close>

theorem count_recomputed_from_supplied_height:
  assumes "input_uniforms e ''count'' \<noteq> None"
  shows "(double_product (Resolution_height (e_resolution e)) v \<longrightarrow>
            (\<exists>e'. set_density v e = Inr e' \<and> density e' = v \<and> e_resolution e' = e_resolution e \<and>
                  count_uniform e' =
                    Some (Math_round (double_mul (Resolution_height (e_resolution e)) v)))) \<and>
         (double_product (Resolution_height res) (density e) \<longrightarrow>
            (\<exists>e'. effect_onResolutionChange res e = Inr e' \<and> density e' = density e \<and>
                  count_uniform e' =
                    Some (Math_round (double_mul (Resolution_height res) (density e))))) \<and>
         (double_product (Resolution_height (setBaseSize w h (e_resolution e))) (density e) \<longrightarrow>
            (\<exists>e'. effect_resize w h e = Inr e' \<and> density e' = density e \<and>
                  e_resolution e' = setBaseSize w h (e_resolution e) \<and>
                  count_uniform e' =
                    Some (Math_round (double_mul
                           (Resolution_height (setBaseSize w h (e_resolution e))) (density e))) \<and>
                  count_uniform (projr (effect_resize w' h e)) = count_uniform e' \<and>
                  (h = baseHeight (e_resolution e) \<and>
                   count_uniform e =
                     Some (Math_round (double_mul (Resolution_height (e_resolution e)) (density e)))
                   \<longrightarrow> count_uniform e' = count_uniform e))) \<and>
         (double_product h (density e) \<longrightarrow>
            (\<exists>e'. effect_setSize w h e = Inr e' \<and> density e' = density e \<and>
                  e_resolution e' = e_resolution e \<and>
                  count_uniform e' = Some (Math_round (double_mul h (density e)))))"
proof -
  have r: "input_uniforms (e\<lparr>e_resolution := x\<rparr>) ''count'' \<noteq> None" for x
    using assms by simp
  have d: "input_uniforms (e\<lparr>density := x\<rparr>) ''count'' \<noteq> None" for x
    using assms by simp
  show ?thesis
    by (simp add: set_density_def effect_onResolutionChange_def effect_resize_def
        effect_setSize_def Let_def updateCount_declared [OF assms] updateCount_declared [OF r]
        updateCount_declared [OF d] count_uniform_def Resolution_height_def setBaseSize_def)
qed

theorem count_recomputed_from_supplied_height_witness:
  "input_uniforms example_effect ''count'' \<noteq> None \<and>
   double_product 600 (5 / 4) \<and> double_product 640 (5 / 4) \<and>
   count_uniform (projr (set_density 1.25 example_effect)) = Some 750 \<and>
   count_uniform (projr (effect_resize 1000 600 example_effect)) = Some 750 \<and>
   count_uniform (projr (effect_resize 1000 640 example_effect)) = Some 800 \<and>
   count_uniform (projr (effect_onResolutionChange (Resolution_new 800 640) example_effect)) = Some 800 \<and>
   input_uniforms example_effect_0_7 ''count'' \<noteq> None \<and>
   double_product 45 double_0_7 \<and>
   count_uniform (projr (effect_setSize 80 45 example_effect_0_7)) = Some 31"
proof -
  have d: "input_uniforms example_effect ''count'' \<noteq> None"
    "input_uniforms example_effect_0_7 ''count'' \<noteq> None"
    by (simp_all add: example_effect_def example_effect_0_7_def)
  have f: "density example_effect = 5 / 4"
    "Resolution_height (e_resolution example_effect) = 600"
    "Resolution_height (setBaseSize 1000 600 (e_resolution example_effect)) = 600"
    "Resolution_height (setBaseSize 1000 640 (e_resolution example_effect)) = 640"
    "Resolution_height (Resolution_new 800 640) = 640"
    "density example_effect_0_7 = double_0_7"
    by (simp_all add: example_effect_def example_effect_0_7_def Resolution_new_def
        Resolution_height_def setBaseSize_def Math_round_def)
  have m: "Math_round 750 = 750" "Math_round 800 = 800"
    by (simp_all add: Math_round_def)
  have p: "double_product 600 (5 / 4)" "double_product 640 (5 / 4)"
    "double_product 45 double_0_7"
    by (simp_all add: double_product_def double_value_examples)
      (simp add: double_0_7_def)
  note t1 = count_recomputed_from_supplied_height
         [OF d(1), where v = "5 / 4" and res = "Resolution_new 800 640" and w = 1000 and h = 600
           and w' = 1000]
  note t2 = count_recomputed_from_supplied_height
         [OF d(1), where v = "5 / 4" and res = "Resolution_new 800 640" and w = 1000 and h = 640
           and w' = 1000]
  note t3 = count_recomputed_from_supplied_height
         [OF d(2), where v = "5 / 4" and res = "Resolution_new 800 640" and w = 80 and h = 45
           and w' = 80]
  have c1: "count_uniform (projr (set_density (5 / 4) example_effect)) = Some 750"
    using t1 [THEN conjunct1] p(1) by (auto simp: f m double_mul_examples)
  have c2: "count_uniform (projr (effect_resize 1000 600 example_effect)) = Some 750"
    using t1 [THEN conjunct2, THEN conjunct2, THEN conjunct1] p(1)
    by (auto simp: f m double_mul_examples)
  have c3: "count_uniform (projr (effect_resize 1000 640 example_effect)) = Some 800"
    using t2 [THEN conjunct2, THEN conjunct2, THEN conjunct1] p(2)
    by (auto simp: f m double_mul_examples)
  have c4: "count_uniform (projr (effect_onResolutionChange (Resolution_new 800 640) example_effect))
              = Some 800"
    using t2 [THEN conjunct2, THEN conjunct1] p(2) by (auto simp: f m double_mul_examples)
  have c5: "count_uniform (projr (effect_setSize 80 45 example_effect_0_7)) = Some 31"
    using t3 [THEN conjunct2, THEN conjunct2, THEN conjunct2] p(3)
    by (auto simp: f double_mul_examples)
  from d p c1 c2 c3 c4 c5 show ?thesis by simp
qed

section \<open>EffectMaterial: the shader templates\<close>

text \<open>
  \<open>split_first\<close> finds the first occurrence of the pattern, if there is one.
\<close>

lemma split_first_Some: "split_first pat s = Some (a, b) \<Longrightarrow> s = a @ pat @ b"
proof (induction s arbitrary: a b)
  case Nil
  then show ?case by (simp split: if_splits)
next
  case (Cons c cs)
  show ?case
  proof (cases "take (length pat) (c # cs) = pat")
    case True
    with Cons.prems have "a = []" "b = drop (length pat) (c # cs)" by simp_all
    with True show ?thesis
      by (metis append_Nil append_take_drop_id)
  next
    case False
    with Cons.prems obtain a' where s: "split_first pat cs = Some (a', b)" and a: "a = c # a'"
      by (auto split: option.splits)
    from Cons.IH [OF s] a show ?thesis by simp
  qed
qed

lemma split_first_None: "split_first pat s = None \<Longrightarrow> s \<noteq> a @ pat @ b"
proof (induction s arbitrary: a)
  case Nil
  then show ?case by (simp split: if_splits)
next
  case (Cons c cs)
  from Cons.prems have nt: "take (length pat) (c # cs) \<noteq> pat"
    and rec: "split_first pat cs = None"
    by (auto split: if_splits option.splits)
  show ?case
  proof (cases a)
    case Nil
    with nt show ?thesis by auto
  next
    case (Cons x xs)
    with Cons.IH [OF rec, of xs] show ?thesis by auto
  qed
qed

lemma split_first_least:
  "split_first pat s = Some (a, b) \<Longrightarrow> s = a' @ pat @ b' \<Longrightarrow> length a \<le> length a'"
proof (induction s arbitrary: a a')
  case Nil
  then show ?case by (simp split: if_splits)
next
  case (Cons c cs)
  show ?case
  proof (cases "take (length pat) (c # cs) = pat")
    case True
    with Cons.prems(1) show ?thesis by simp
  next
    case False
    with Cons.prems(1) obtain a0 where s: "split_first pat cs = Some (a0, b)" and a: "a = c # a0"
      by (auto split: option.splits)
    from False Cons.prems(2) obtain x xs where a': "a' = x # xs"
      by (cases a') auto
    with Cons.prems(2) have "cs = xs @ pat @ b'" by simp
    from Cons.IH [OF s this] a a' show ?thesis by simp
  qed
qed



























end
